theory Spec2Isabelle
  imports Complex_Main "HOL-Library.Multiset"
begin

section \<open>The Game of Hog: values, errors, effects\<close>

text \<open>
  The simulator is Python. A roll count reaches \<open>roll_dice\<close> and \<open>take_turn\<close> as an
  arbitrary Python value, and both test \<open>type(num_rolls) == int\<close> first, so a roll count is
  a \<open>pyval\<close>: only \<open>PyInt\<close> has type \<open>int\<close> (a \<open>bool\<close> has type \<open>bool\<close>).
  Scores and dice outcomes are unbounded integers.
\<close>

datatype pyval = PyInt int | PyBool bool | PyStr string | PyNone

datatype error = AssertionError string | ZeroDivisionError

text \<open>
  Python's \<open>/\<close> on integers, and \<open>-\<close> and \<open>+\<close> on floats, return the double nearest
  to the exact result. A float is modelled by the rational number it denotes, and the rounding
  is a parameter \<open>fl\<close> of the harness functions: the exact result goes through \<open>fl\<close>
  wherever Python rounds. The theorems assume of \<open>fl\<close> only what every rounding to nearest
  has: it is monotone and leaves the small integers as they are.
\<close>

type_synonym rounding = "rat \<Rightarrow> rat"

text \<open>
  A dice source is a zero-argument callable with hidden state (a cursor, a random generator).
  The state is made explicit: a dice takes the world and returns its outcome and the new world.
  A computation returns \<open>None\<close> when it does not return at all, \<open>Some (Inl e)\<close> when it
  raises \<open>e\<close>, and \<open>Some (Inr (v, w))\<close> when it returns \<open>v\<close> and leaves the world \<open>w\<close>.
\<close>

type_synonym 'w dice = "'w \<Rightarrow> int \<times> 'w"

type_synonym ('a, 'w) run = "'w \<Rightarrow> (error + 'a \<times> 'w) option"

type_synonym strategy = "int \<Rightarrow> int \<Rightarrow> pyval"

definition GOAL_SCORE :: int where
  "GOAL_SCORE = 100"

section \<open>Phase 1: the simulator\<close>

text \<open>
  The loop of \<open>roll_dice\<close>: \<open>while num_rolls != 0\<close> calls the dice, records a 1, and
  counts down. Entered with a negative counter it would never stop, so it is a partial function.
\<close>

partial_function (option) roll_dice_loop ::
  "'w dice \<Rightarrow> int \<Rightarrow> int \<Rightarrow> bool \<Rightarrow> 'w \<Rightarrow> ((int \<times> bool) \<times> 'w) option" where
  "roll_dice_loop dice num_rolls tot pig_out w =
     (if num_rolls \<noteq> 0 then
        (case dice w of (single_roll, w') \<Rightarrow>
           roll_dice_loop dice (num_rolls - 1) (tot + single_roll)
             (if single_roll = 1 then True else pig_out) w')
      else Some ((tot, pig_out), w))"

declare roll_dice_loop.simps [code]

definition roll_dice :: "pyval \<Rightarrow> 'w dice \<Rightarrow> (int, 'w) run" where
  "roll_dice num_rolls dice w =
     (case num_rolls of
        PyInt n \<Rightarrow>
          if n > 0 then
            (case roll_dice_loop dice n 0 False w of
               None \<Rightarrow> None
             | Some ((tot, pig_out), w') \<Rightarrow>
                 if pig_out then Some (Inr (1, w')) else Some (Inr (tot, w')))
          else Some (Inl (AssertionError ''Must roll at least once.''))
      | _ \<Rightarrow> Some (Inl (AssertionError ''num_rolls must be an integer.'')))"

definition free_bacon :: "int \<Rightarrow> int" where
  "free_bacon score = max (score div 10) (score mod 10) + 1"

definition take_turn :: "pyval \<Rightarrow> int \<Rightarrow> 'w dice \<Rightarrow> (int, 'w) run" where
  "take_turn num_rolls opponent_score dice w =
     (case num_rolls of
        PyInt n \<Rightarrow>
          if \<not> n \<ge> 0 then Some (Inl (AssertionError ''Cannot roll a negative number of dice.''))
          else if \<not> n \<le> 10 then Some (Inl (AssertionError ''Cannot roll more than 10 dice.''))
          else if \<not> opponent_score < 100 then Some (Inl (AssertionError ''The game should be over.''))
          else if n = 0 then Some (Inr (free_bacon opponent_score, w))
          else roll_dice num_rolls dice w
      | _ \<Rightarrow> Some (Inl (AssertionError ''num_rolls must be an integer.'')))"

text \<open>
  \<open>four_sided\<close> and \<open>six_sided\<close> come from the module \<open>dice\<close>, which is not part of the
  sources at hand: they are parameters.
\<close>

definition select_dice :: "'w dice \<Rightarrow> 'w dice \<Rightarrow> int \<Rightarrow> int \<Rightarrow> 'w dice" where
  "select_dice four_sided six_sided score opponent_score =
     (if (opponent_score + score) mod 7 = 0 then four_sided else six_sided)"

definition other :: "int \<Rightarrow> int" where
  "other who = 1 - who"

text \<open>
  The loop of \<open>play\<close> on the rotating pair \<open>(score, opponent_score)\<close>. Nothing bounds the
  number of turns in general (a dice may return 0 for ever), so the loop is a partial function.
\<close>

definition swine_swap :: "int \<Rightarrow> int \<Rightarrow> int \<times> int" where
  "swine_swap score opponent_score =
     (if score = 2 * opponent_score \<or> opponent_score = 2 * score
      then (opponent_score, score) else (score, opponent_score))"

definition rotate_pair :: "int \<times> int \<Rightarrow> int \<times> int" where
  "rotate_pair p = (case p of (score, opponent_score) \<Rightarrow> (opponent_score, score))"

partial_function (option) play_loop ::
  "strategy \<Rightarrow> strategy \<Rightarrow> int \<Rightarrow> 'w dice \<Rightarrow> 'w dice \<Rightarrow> int \<Rightarrow> int \<Rightarrow> int \<Rightarrow> 'w
     \<Rightarrow> (error + (int \<times> int \<times> int) \<times> 'w) option" where
  "play_loop strategy0 strategy1 goal four_sided six_sided who score opponent_score w =
     (if max score opponent_score < goal then
        (let func_strategy = (if who = 0 then strategy0 else strategy1);
             num_rolls = func_strategy score opponent_score;
             dice = select_dice four_sided six_sided score opponent_score
         in case take_turn num_rolls opponent_score dice w of
              None \<Rightarrow> None
            | Some (Inl e) \<Rightarrow> Some (Inl e)
            | Some (Inr (delta, w')) \<Rightarrow>
                (case rotate_pair (swine_swap (score + delta) opponent_score) of
                   (score', opponent_score') \<Rightarrow>
                     play_loop strategy0 strategy1 goal four_sided six_sided (other who)
                       score' opponent_score' w'))
      else Some (Inr ((who, score, opponent_score), w)))"

declare play_loop.simps [code]

definition play :: "strategy \<Rightarrow> strategy \<Rightarrow> int \<Rightarrow> 'w dice \<Rightarrow> 'w dice \<Rightarrow> (int \<times> int, 'w) run" where
  "play strategy0 strategy1 goal four_sided six_sided w =
     (case play_loop strategy0 strategy1 goal four_sided six_sided 0 0 0 w of
        None \<Rightarrow> None
      | Some (Inl e) \<Rightarrow> Some (Inl e)
      | Some (Inr ((who, score, opponent_score), w')) \<Rightarrow>
          if who = 0 then Some (Inr ((score, opponent_score), w'))
          else Some (Inr ((opponent_score, score), w')))"

section \<open>Phase 2: strategies and experiments\<close>

definition always_roll :: "pyval \<Rightarrow> strategy" where
  "always_roll n = (\<lambda>score opponent_score. n)"

text \<open>
  \<open>make_averaged fn num_samples\<close> returns the closure \<open>average\<close>; \<open>fn\<close> stands for
  \<open>fn(*args)\<close>, the arguments being the same at every call. Its loop counts \<open>i\<close> up to
  \<open>num_samples\<close>, so it stops whenever \<open>fn\<close> returns.
\<close>

function average_loop ::
  "(int, 'w) run \<Rightarrow> int \<Rightarrow> int \<Rightarrow> int \<Rightarrow> 'w \<Rightarrow> (error + int \<times> 'w) option" where
  "average_loop fn num_samples i tot w =
     (if i < num_samples then
        (case fn w of
           None \<Rightarrow> None
         | Some (Inl e) \<Rightarrow> Some (Inl e)
         | Some (Inr (v, w')) \<Rightarrow> average_loop fn num_samples (i + 1) (tot + v) w')
      else Some (Inr (tot, w)))"
  by pat_completeness auto
termination
  by (relation "measure (\<lambda>(fn, num_samples, i, tot, w). nat (num_samples - i))") auto

definition make_averaged :: "rounding \<Rightarrow> (int, 'w) run \<Rightarrow> int \<Rightarrow> (rat, 'w) run" where
  "make_averaged fl fn num_samples w =
     (case average_loop fn num_samples 0 0 w of
        None \<Rightarrow> None
      | Some (Inl e) \<Rightarrow> Some (Inl e)
      | Some (Inr (tot, w')) \<Rightarrow>
          if num_samples = 0 then Some (Inl ZeroDivisionError)
          else Some (Inr (fl (of_int tot / of_int num_samples), w')))"

text \<open>
  The loop of \<open>max_scoring_num_rolls\<close>, \<open>roll\<close> running from 1 to 10. What it prints is
  left out.
\<close>

function max_scoring_loop ::
  "rounding \<Rightarrow> 'w dice \<Rightarrow> int \<Rightarrow> int \<Rightarrow> rat \<Rightarrow> 'w \<Rightarrow> (error + int \<times> 'w) option" where
  "max_scoring_loop fl dice roll max_num_roll best_value w =
     (if roll \<le> 10 then
        (case make_averaged fl (roll_dice (PyInt roll) dice) 1000 w of
           None \<Rightarrow> None
         | Some (Inl e) \<Rightarrow> Some (Inl e)
         | Some (Inr (ave_value, w')) \<Rightarrow>
             if ave_value > best_value
             then max_scoring_loop fl dice (roll + 1) roll ave_value w'
             else max_scoring_loop fl dice (roll + 1) max_num_roll best_value w')
      else Some (Inr (max_num_roll, w)))"
  by pat_completeness auto
termination
  by (relation "measure (\<lambda>(fl, dice, roll, max_num_roll, best_value, w). nat (11 - roll))") auto

definition max_scoring_num_rolls :: "rounding \<Rightarrow> 'w dice \<Rightarrow> (int, 'w) run" where
  "max_scoring_num_rolls fl dice w = max_scoring_loop fl dice 1 0 0 w"

definition winner :: "strategy \<Rightarrow> strategy \<Rightarrow> 'w dice \<Rightarrow> 'w dice \<Rightarrow> (int, 'w) run" where
  "winner strategy0 strategy1 four_sided six_sided w =
     (case play strategy0 strategy1 GOAL_SCORE four_sided six_sided w of
        None \<Rightarrow> None
      | Some (Inl e) \<Rightarrow> Some (Inl e)
      | Some (Inr ((score0, score1), w')) \<Rightarrow>
          if score0 > score1 then Some (Inr (0, w')) else Some (Inr (1, w')))"

definition average_win_rate ::
  "rounding \<Rightarrow> strategy \<Rightarrow> strategy \<Rightarrow> 'w dice \<Rightarrow> 'w dice \<Rightarrow> (rat, 'w) run" where
  "average_win_rate fl strategy baseline four_sided six_sided w =
     (case make_averaged fl (winner strategy baseline four_sided six_sided) 1000 w of
        None \<Rightarrow> None
      | Some (Inl e) \<Rightarrow> Some (Inl e)
      | Some (Inr (averaged0, w1)) \<Rightarrow>
          (let win_rate_as_player_0 = fl (1 - averaged0)
           in case make_averaged fl (winner baseline strategy four_sided six_sided) 1000 w1 of
                None \<Rightarrow> None
              | Some (Inl e) \<Rightarrow> Some (Inl e)
              | Some (Inr (win_rate_as_player_1, w2)) \<Rightarrow>
                  Some (Inr (fl (fl (win_rate_as_player_0 + win_rate_as_player_1) / 2), w2))))"

section \<open>Specification-side notions\<close>

text \<open>
  \<open>draw k dice w\<close> is what \<open>k\<close> successive calls of the dice return from the world
  \<open>w\<close>, and the world they leave. \<open>counted dice\<close> is the same dice with a counter of its
  calls beside the world.
\<close>

fun draw :: "nat \<Rightarrow> 'w dice \<Rightarrow> 'w \<Rightarrow> int list \<times> 'w" where
  "draw 0 dice w = ([], w)"
| "draw (Suc k) dice w =
     (case dice w of (x, w') \<Rightarrow> (case draw k dice w' of (xs, w'') \<Rightarrow> (x # xs, w'')))"

definition counted :: "'w dice \<Rightarrow> (nat \<times> 'w) dice" where
  "counted dice = (\<lambda>(calls, w). case dice w of (x, w') \<Rightarrow> (x, (Suc calls, w')))"

definition positive_dice :: "'w dice \<Rightarrow> bool" where
  "positive_dice dice = (\<forall>w. 0 < fst (dice w))"

definition valid_strategy :: "strategy \<Rightarrow> bool" where
  "valid_strategy strategy =
     (\<forall>score opponent_score. \<exists>n. strategy score opponent_score = PyInt n \<and> 0 \<le> n \<and> n \<le> 10)"

text \<open>
  Modelled from the spec: the test variant of the dice source, from the module \<open>dice\<close> that is
  not among the sources. It takes a fixed sequence of outcomes and returns them in order,
  wrapping back to the start after the last one. The world is its cursor.
\<close>

definition make_test_dice :: "int list \<Rightarrow> nat dice" where
  "make_test_dice outcomes = (\<lambda>index. (outcomes ! (index mod length outcomes), Suc index))"

text \<open>
  The game as the specification words it, on the scores of player 0 and of player 1 themselves:
  the player \<open>who\<close> is the current one, the strategy and the dice see the scores before the
  turn, the turn's points are added, the two scores are exchanged on an exact doubling, and the
  turn passes to the other player.
\<close>

partial_function (option) spec_play_loop ::
  "strategy \<Rightarrow> strategy \<Rightarrow> int \<Rightarrow> 'w dice \<Rightarrow> 'w dice \<Rightarrow> int \<Rightarrow> int \<Rightarrow> int \<Rightarrow> 'w
     \<Rightarrow> (error + (int \<times> int) \<times> 'w) option" where
  "spec_play_loop strategy0 strategy1 goal four_sided six_sided who score0 score1 w =
     (if max score0 score1 < goal then
        (let current = (if who = 0 then score0 else score1);
             opponent = (if who = 0 then score1 else score0);
             num_rolls = (if who = 0 then strategy0 current opponent
                          else strategy1 current opponent);
             dice = select_dice four_sided six_sided current opponent
         in case take_turn num_rolls opponent dice w of
              None \<Rightarrow> None
            | Some (Inl e) \<Rightarrow> Some (Inl e)
            | Some (Inr (delta, w')) \<Rightarrow>
                (let added = current + delta;
                     doubled = (added = 2 * opponent \<or> opponent = 2 * added);
                     current' = (if doubled then opponent else added);
                     opponent' = (if doubled then added else opponent)
                 in if who = 0
                    then spec_play_loop strategy0 strategy1 goal four_sided six_sided 1
                           current' opponent' w'
                    else spec_play_loop strategy0 strategy1 goal four_sided six_sided 0
                           opponent' current' w'))
      else Some (Inr ((score0, score1), w)))"

declare spec_play_loop.simps [code]

text \<open>
  What \<open>play\<close> makes of the loop's final state: the rotating pair is read as the pair of
  player 0 and player 1 according to \<open>who\<close>; an error stays the error.
\<close>

definition in_player_order :: "error + (int \<times> int \<times> int) \<times> 'w \<Rightarrow> error + (int \<times> int) \<times> 'w" where
  "in_player_order r =
     (case r of
        Inl e \<Rightarrow> Inl e
      | Inr ((who, score, opponent_score), w) \<Rightarrow>
          if who = 0 then Inr ((score, opponent_score), w)
          else Inr ((opponent_score, score), w))"

text \<open>
  \<open>samples k fn w\<close> is the list of what \<open>k\<close> successive calls of \<open>fn\<close> return, and
  \<open>roll_averages\<close> the averages of \<open>roll_dice\<close> for the roll counts of a list, one after
  the other, over 1000 samples each.
\<close>

fun samples :: "nat \<Rightarrow> (int, 'w) run \<Rightarrow> 'w \<Rightarrow> (error + int list \<times> 'w) option" where
  "samples 0 fn w = Some (Inr ([], w))"
| "samples (Suc k) fn w =
     (case fn w of
        None \<Rightarrow> None
      | Some (Inl e) \<Rightarrow> Some (Inl e)
      | Some (Inr (v, w')) \<Rightarrow>
          (case samples k fn w' of
             None \<Rightarrow> None
           | Some (Inl e) \<Rightarrow> Some (Inl e)
           | Some (Inr (vs, w'')) \<Rightarrow> Some (Inr (v # vs, w''))))"

fun roll_averages ::
  "rounding \<Rightarrow> 'w dice \<Rightarrow> int list \<Rightarrow> 'w \<Rightarrow> (error + rat list \<times> 'w) option" where
  "roll_averages fl dice [] w = Some (Inr ([], w))"
| "roll_averages fl dice (roll # rolls) w =
     (case samples 1000 (roll_dice (PyInt roll) dice) w of
        None \<Rightarrow> None
      | Some (Inl e) \<Rightarrow> Some (Inl e)
      | Some (Inr (vs, w')) \<Rightarrow>
          (case roll_averages fl dice rolls w' of
             None \<Rightarrow> None
           | Some (Inl e) \<Rightarrow> Some (Inl e)
           | Some (Inr (avs, w'')) \<Rightarrow>
               Some (Inr (fl (of_int (sum_list vs) / 1000) # avs, w''))))"

text \<open>
  The scan of \<open>max_scoring_num_rolls\<close> over a list of averages already computed: the roll
  count of the first average that is strictly above every earlier one and above the starting
  value is kept.
\<close>

fun first_max_scan :: "int \<Rightarrow> int \<Rightarrow> rat \<Rightarrow> rat list \<Rightarrow> int" where
  "first_max_scan roll max_num_roll best_value [] = max_num_roll"
| "first_max_scan roll max_num_roll best_value (ave_value # avs) =
     (if ave_value > best_value then first_max_scan (roll + 1) roll ave_value avs
      else first_max_scan (roll + 1) max_num_roll best_value avs)"

section \<open>The turn engine\<close>

lemma roll_dice_loop_draw:
  "roll_dice_loop dice (int k) tot pig_out w =
     Some ((tot + sum_list (fst (draw k dice w)), pig_out \<or> 1 \<in> set (fst (draw k dice w))),
           snd (draw k dice w))"
proof (induction k arbitrary: tot pig_out w)
  case 0
  show ?case by (subst roll_dice_loop.simps) simp
next
  case (Suc k)
  obtain x w' where d: "dice w = (x, w')" by (cases "dice w")
  have "roll_dice_loop dice (int (Suc k)) tot pig_out w =
        roll_dice_loop dice (int k) (tot + x) (if x = 1 then True else pig_out) w'"
    by (subst roll_dice_loop.simps) (simp add: d)
  also have "\<dots> = Some ((tot + x + sum_list (fst (draw k dice w')),
                 (if x = 1 then True else pig_out) \<or> 1 \<in> set (fst (draw k dice w'))),
                snd (draw k dice w'))"
    by (rule Suc.IH)
  finally show ?case by (auto simp: d split: prod.splits)
qed

lemma length_draw: "length (fst (draw k dice w)) = k"
proof (induction k arbitrary: w)
  case 0
  show ?case by simp
next
  case (Suc k)
  obtain x w' where d: "dice w = (x, w')" by (cases "dice w")
  obtain xs w'' where e: "draw k dice w' = (xs, w'')" by (cases "draw k dice w'")
  from Suc.IH [of w'] show ?case by (simp add: d e)
qed

lemma draw_counted:
  "draw k (counted dice) (calls, w) = (fst (draw k dice w), (calls + k, snd (draw k dice w)))"
proof (induction k arbitrary: calls w)
  case 0
  show ?case by simp
next
  case (Suc k)
  obtain x w' where d: "dice w = (x, w')" by (cases "dice w")
  obtain xs w'' where e: "draw k dice w' = (xs, w'')" by (cases "draw k dice w'")
  from Suc.IH [of "Suc calls" w'] show ?case by (simp add: d e counted_def)
qed

lemma draw_positive:
  "positive_dice dice \<Longrightarrow> x \<in> set (fst (draw k dice w)) \<Longrightarrow> 0 < x"
proof (induction k arbitrary: w)
  case 0
  then show ?case by simp
next
  case (Suc k)
  obtain y w' where d: "dice w = (y, w')" by (cases "dice w")
  obtain xs w'' where e: "draw k dice w' = (xs, w'')" by (cases "draw k dice w'")
  from Suc.prems(1) have "0 < fst (dice w)" by (simp add: positive_dice_def)
  with d have "0 < y" by simp
  with Suc.prems Suc.IH [of w'] show ?case by (auto simp: d e)
qed

lemma roll_dice_draw:
  "1 \<le> n \<Longrightarrow> roll_dice (PyInt n) dice w =
     Some (Inr (if 1 \<in> set (fst (draw (nat n) dice w)) then 1
                else sum_list (fst (draw (nat n) dice w)),
                snd (draw (nat n) dice w)))"
  using roll_dice_loop_draw [of dice "nat n" 0 False w]
  by (simp add: roll_dice_def)

lemma sum_list_positive:
  "xs \<noteq> [] \<Longrightarrow> \<forall>x \<in> set xs. (0::int) < x \<Longrightarrow> 1 \<le> sum_list xs"
proof (induction xs)
  case Nil
  then show ?case by simp
next
  case (Cons a xs)
  show ?case
  proof (cases "xs = []")
    case True
    with Cons.prems show ?thesis by simp
  next
    case False
    with Cons have "1 \<le> sum_list xs" and "0 < a" by simp_all
    then show ?thesis by simp
  qed
qed

lemma free_bacon_positive: "1 \<le> free_bacon score"
  by (simp add: free_bacon_def)

text \<open>
  C3. For every \<open>num_rolls \<ge> 1\<close> and every dice, \<open>roll_dice\<close> returns 1 if one of the
  \<open>num_rolls\<close> outcomes is 1 and their sum otherwise; the world it leaves is the one after
  exactly \<open>num_rolls\<close> calls of the dice, and a counter of the calls goes up by exactly
  \<open>num_rolls\<close>, a 1 among the outcomes or not.
\<close>

theorem roll_dice_calls_dice_exactly:
  assumes "1 \<le> n"
  shows "roll_dice (PyInt n) dice w =
           Some (Inr (if 1 \<in> set (fst (draw (nat n) dice w)) then 1
                      else sum_list (fst (draw (nat n) dice w)),
                      snd (draw (nat n) dice w)))
         \<and> length (fst (draw (nat n) dice w)) = nat n
         \<and> (\<exists>v w'. roll_dice (PyInt n) (counted dice) (calls, w)
                     = Some (Inr (v, (calls + nat n, w'))))"
  using assms roll_dice_draw [of n dice w] roll_dice_draw [of n "counted dice" "(calls, w)"]
  by (simp add: length_draw draw_counted)

text \<open>
  C4. With zero rolls and an opponent score from 0 to 99, \<open>take_turn\<close> leaves the world as
  it is (no call of the dice is counted) and returns \<open>free_bacon opponent_score\<close>, which is
  one more than the larger of the two digits; it is 1 at 0, 10 at 9 and 10 at 99.
\<close>

theorem take_turn_zero_rolls:
  assumes "0 \<le> opponent_score" and "opponent_score < 100"
  shows "take_turn (PyInt 0) opponent_score dice w = Some (Inr (free_bacon opponent_score, w))
         \<and> take_turn (PyInt 0) opponent_score (counted dice) (calls, w)
             = Some (Inr (free_bacon opponent_score, (calls, w)))
         \<and> free_bacon opponent_score = 1 + max (opponent_score div 10) (opponent_score mod 10)
         \<and> free_bacon 0 = 1 \<and> free_bacon 9 = 10 \<and> free_bacon 99 = 10"
  using assms by (simp add: take_turn_def free_bacon_def)

text \<open>
  C8. \<open>roll_dice\<close> raises an assertion error exactly when the roll count is not an integer
  or is below 1; \<open>take_turn\<close> raises one exactly when the roll count is not an integer, is
  negative, is above 10, or the opponent's score is 100 or more. No such input is turned into a
  valid one.
\<close>

theorem precondition_violations_abort:
  "((\<exists>msg. roll_dice num_rolls dice w = Some (Inl (AssertionError msg)))
      \<longleftrightarrow> \<not> (\<exists>n. num_rolls = PyInt n \<and> 1 \<le> n))
   \<and> ((\<exists>msg. take_turn num_rolls opponent_score dice w = Some (Inl (AssertionError msg)))
      \<longleftrightarrow> \<not> (\<exists>n. num_rolls = PyInt n \<and> 0 \<le> n \<and> n \<le> 10 \<and> opponent_score < 100))"
proof (cases num_rolls)
  case (PyInt n)
  show ?thesis
  proof (cases "1 \<le> n")
    case True
    with PyInt roll_dice_draw [of n dice w] show ?thesis
      by (simp add: take_turn_def)
  next
    case False
    with PyInt show ?thesis by (simp add: take_turn_def roll_dice_def)
  qed
qed (simp_all add: take_turn_def roll_dice_def)

text \<open>
  C9. For a roll count from 0 to 10, an opponent score from 0 to 99 and a dice with positive
  outcomes only, \<open>take_turn\<close> returns a value of at least 1, so that the score it is added
  to is strictly larger afterwards.
\<close>

theorem take_turn_at_least_one:
  assumes "0 \<le> n" and "n \<le> 10" and "0 \<le> opponent_score" and "opponent_score \<le> 99"
    and "positive_dice dice"
  shows "\<exists>delta w'. take_turn (PyInt n) opponent_score dice w = Some (Inr (delta, w'))
           \<and> 1 \<le> delta \<and> score < score + delta"
proof (cases "n = 0")
  case True
  with assms free_bacon_positive [of opponent_score] show ?thesis
    by (simp add: take_turn_def)
next
  case False
  with assms have n: "1 \<le> n" by simp
  let ?xs = "fst (draw (nat n) dice w)"
  have "?xs \<noteq> []" using length_draw [of "nat n" dice w] n by auto
  moreover have "\<forall>x \<in> set ?xs. 0 < x" using draw_positive [OF assms(5)] by blast
  ultimately have "1 \<le> sum_list ?xs" by (rule sum_list_positive)
  with assms n False roll_dice_draw [OF n, of dice w] show ?thesis
    by (simp add: take_turn_def)
qed


lemma positive_make_test_dice:
  assumes "outcomes \<noteq> []" and "\<forall>x \<in> set outcomes. 0 < x"
  shows "positive_dice (make_test_dice outcomes)"
proof -
  have "0 < outcomes ! (index mod length outcomes)" for index
  proof -
    from assms(1) have "index mod length outcomes < length outcomes" by simp
    then have "outcomes ! (index mod length outcomes) \<in> set outcomes" by (rule nth_mem)
    with assms(2) show ?thesis by blast
  qed
  then show ?thesis by (simp add: positive_dice_def make_test_dice_def)
qed

theorem roll_dice_calls_dice_exactly_witness:
  "(1::int) \<le> 2
   \<and> roll_dice (PyInt 2) (make_test_dice [3, 1, 5, 6]) 0 = Some (Inr (1, 2))
   \<and> roll_dice (PyInt 2) (make_test_dice [3, 1, 5, 6]) 2 = Some (Inr (11, 4))
   \<and> (\<exists>v w'. roll_dice (PyInt 2) (counted (make_test_dice [3, 1, 5, 6])) (0, 0)
               = Some (Inr (v, (2, w'))))"
proof -
  have d0: "draw 2 (make_test_dice [3, 1, 5, 6]) 0 = ([3, 1], 2)"
    by code_simp
  have d2: "draw 2 (make_test_dice [3, 1, 5, 6]) 2 = ([5, 6], 4)"
    by code_simp
  show ?thesis
    using roll_dice_calls_dice_exactly [of 2 "make_test_dice [3, 1, 5, 6]" 0 0]
      roll_dice_calls_dice_exactly [of 2 "make_test_dice [3, 1, 5, 6]" 2 0]
    by (simp add: d0 d2 numeral_2_eq_2 [symmetric])
qed

theorem take_turn_zero_rolls_witness:
  "(0::int) \<le> 42 \<and> (42::int) < 100
   \<and> take_turn (PyInt 0) 42 (make_test_dice [3, 1, 5, 6]) 0 = Some (Inr (5, 0))
   \<and> take_turn (PyInt 0) 42 (counted (make_test_dice [3, 1, 5, 6])) (0, 0)
        = Some (Inr (5, (0, 0)))"
proof -
  have "free_bacon 42 = 5" by (simp add: free_bacon_def)
  with take_turn_zero_rolls [of 42 "make_test_dice [3, 1, 5, 6]" 0 0] show ?thesis by simp
qed

theorem precondition_violations_abort_witness:
  "(\<exists>msg. roll_dice (PyInt 0) (make_test_dice [3]) 0 = Some (Inl (AssertionError msg)))
   \<and> (\<exists>msg. roll_dice (PyStr ''2'') (make_test_dice [3]) 0 = Some (Inl (AssertionError msg)))
   \<and> (\<exists>msg. take_turn (PyInt (- 1)) 0 (make_test_dice [3]) 0 = Some (Inl (AssertionError msg)))
   \<and> (\<exists>msg. take_turn (PyInt 11) 0 (make_test_dice [3]) 0 = Some (Inl (AssertionError msg)))
   \<and> (\<exists>msg. take_turn (PyBool True) 0 (make_test_dice [3]) 0 = Some (Inl (AssertionError msg)))
   \<and> (\<exists>msg. take_turn (PyInt 5) 100 (make_test_dice [3]) 0 = Some (Inl (AssertionError msg)))
   \<and> \<not> (\<exists>msg. take_turn (PyInt 5) 99 (make_test_dice [3]) 0 = Some (Inl (AssertionError msg)))"
  using precondition_violations_abort [of "PyInt 0" "make_test_dice [3]" 0 0]
    precondition_violations_abort [of "PyStr ''2''" "make_test_dice [3]" 0 0]
    precondition_violations_abort [of "PyInt (- 1)" "make_test_dice [3]" 0 0]
    precondition_violations_abort [of "PyInt 11" "make_test_dice [3]" 0 0]
    precondition_violations_abort [of "PyBool True" "make_test_dice [3]" 0 0]
    precondition_violations_abort [of "PyInt 5" "make_test_dice [3]" 0 100]
    precondition_violations_abort [of "PyInt 5" "make_test_dice [3]" 0 99]
  by simp

theorem take_turn_at_least_one_witness:
  "(0::int) \<le> 5 \<and> (5::int) \<le> 10 \<and> (0::int) \<le> 50 \<and> (50::int) \<le> 99
   \<and> positive_dice (make_test_dice [3, 1, 5, 6])
   \<and> (\<exists>delta w'. take_turn (PyInt 5) 50 (make_test_dice [3, 1, 5, 6]) 0 = Some (Inr (delta, w'))
          \<and> 1 \<le> delta \<and> (7::int) < 7 + delta)"
proof -
  have p: "positive_dice (make_test_dice [3, 1, 5, 6])"
    by (rule positive_make_test_dice) simp_all
  from take_turn_at_least_one [of 5 50 "make_test_dice [3, 1, 5, 6]" 0 7, OF _ _ _ _ p] p
  show ?thesis by simp
qed

section \<open>The game engine\<close>

lemma play_loop_stop:
  "\<not> max score opponent_score < goal \<Longrightarrow>
   play_loop strategy0 strategy1 goal four_sided six_sided who score opponent_score w
     = Some (Inr ((who, score, opponent_score), w))"
  by (subst play_loop.simps) (simp only: if_False)

lemma play_loop_turn:
  assumes "max score opponent_score < goal"
    and "take_turn ((if who = 0 then strategy0 else strategy1) score opponent_score)
           opponent_score (select_dice four_sided six_sided score opponent_score) w
         = Some (Inr (delta, w'))"
  shows "play_loop strategy0 strategy1 goal four_sided six_sided who score opponent_score w
     = play_loop strategy0 strategy1 goal four_sided six_sided (other who)
         (snd (swine_swap (score + delta) opponent_score))
         (fst (swine_swap (score + delta) opponent_score)) w'"
  apply (subst play_loop.simps)
  apply (simp only: assms if_True Let_def option.case sum.case prod.case rotate_pair_def)
  apply (simp only: split_beta fst_conv snd_conv)
  done

lemma play_loop_raise:
  assumes "max score opponent_score < goal"
    and "take_turn ((if who = 0 then strategy0 else strategy1) score opponent_score)
           opponent_score (select_dice four_sided six_sided score opponent_score) w
         = Some (Inl e)"
  shows "play_loop strategy0 strategy1 goal four_sided six_sided who score opponent_score w
     = Some (Inl e)"
  apply (subst play_loop.simps)
  apply (simp only: assms if_True Let_def option.case sum.case)
  done

lemma play_loop_diverge:
  assumes "max score opponent_score < goal"
    and "take_turn ((if who = 0 then strategy0 else strategy1) score opponent_score)
           opponent_score (select_dice four_sided six_sided score opponent_score) w
         = None"
  shows "play_loop strategy0 strategy1 goal four_sided six_sided who score opponent_score w
     = None"
  apply (subst play_loop.simps)
  apply (simp only: assms if_True Let_def option.case)
  done

lemma spec_play_loop_stop:
  "\<not> max score0 score1 < goal \<Longrightarrow>
   spec_play_loop strategy0 strategy1 goal four_sided six_sided who score0 score1 w
     = Some (Inr ((score0, score1), w))"
  by (subst spec_play_loop.simps) (simp only: if_False)

lemma spec_play_loop_turn:
  assumes "max score0 score1 < goal"
    and "current = (if who = 0 then score0 else score1)"
    and "opponent = (if who = 0 then score1 else score0)"
    and "take_turn ((if who = 0 then strategy0 else strategy1) current opponent) opponent
     (select_dice four_sided six_sided current opponent) w = Some (Inr (delta, w'))"
  shows "spec_play_loop strategy0 strategy1 goal four_sided six_sided who score0 score1 w
     = (if who = 0
        then spec_play_loop strategy0 strategy1 goal four_sided six_sided 1
               (fst (swine_swap (current + delta) opponent))
               (snd (swine_swap (current + delta) opponent)) w'
        else spec_play_loop strategy0 strategy1 goal four_sided six_sided 0
               (snd (swine_swap (current + delta) opponent))
               (fst (swine_swap (current + delta) opponent)) w')"
proof (cases "who = 0")
  case True
  with assms have t: "take_turn (strategy0 score0 score1) score1
     (select_dice four_sided six_sided score0 score1) w = Some (Inr (delta, w'))"
    by simp
  have "spec_play_loop strategy0 strategy1 goal four_sided six_sided 0 score0 score1 w
     = spec_play_loop strategy0 strategy1 goal four_sided six_sided 1
               (fst (swine_swap (score0 + delta) score1))
               (snd (swine_swap (score0 + delta) score1)) w'"
    apply (subst spec_play_loop.simps)
    apply (simp only: assms(1) if_True simp_thms Let_def t option.case sum.case prod.case)
    apply (simp add: swine_swap_def)
    done
  with True assms(2,3) show ?thesis by simp
next
  case False
  with assms have t: "take_turn (strategy1 score1 score0) score0
     (select_dice four_sided six_sided score1 score0) w = Some (Inr (delta, w'))"
    by simp
  have "spec_play_loop strategy0 strategy1 goal four_sided six_sided who score0 score1 w
     = spec_play_loop strategy0 strategy1 goal four_sided six_sided 0
               (snd (swine_swap (score1 + delta) score0))
               (fst (swine_swap (score1 + delta) score0)) w'"
    apply (subst spec_play_loop.simps)
    apply (simp only: assms(1) if_True False if_False simp_thms Let_def t option.case sum.case prod.case)
    apply (simp add: swine_swap_def)
    done
  with False assms(2,3) show ?thesis by simp
qed

lemma spec_play_loop_raise:
  assumes "max score0 score1 < goal"
    and "current = (if who = 0 then score0 else score1)"
    and "opponent = (if who = 0 then score1 else score0)"
    and "take_turn ((if who = 0 then strategy0 else strategy1) current opponent) opponent
     (select_dice four_sided six_sided current opponent) w = Some (Inl e)"
  shows "spec_play_loop strategy0 strategy1 goal four_sided six_sided who score0 score1 w
     = Some (Inl e)"
proof (cases "who = 0")
  case True
  with assms have t: "take_turn (strategy0 score0 score1) score1
     (select_dice four_sided six_sided score0 score1) w = Some (Inl e)"
    by simp
  have "spec_play_loop strategy0 strategy1 goal four_sided six_sided 0 score0 score1 w
     = Some (Inl e)"
    apply (subst spec_play_loop.simps)
    apply (simp only: assms(1) if_True simp_thms Let_def t option.case sum.case)
    done
  with True show ?thesis by simp
next
  case False
  with assms have t: "take_turn (strategy1 score1 score0) score0
     (select_dice four_sided six_sided score1 score0) w = Some (Inl e)"
    by simp
  show ?thesis
    apply (subst spec_play_loop.simps)
    apply (simp only: assms(1) if_True False if_False simp_thms Let_def t option.case sum.case)
    done
qed

lemma spec_play_loop_diverge:
  assumes "max score0 score1 < goal"
    and "current = (if who = 0 then score0 else score1)"
    and "opponent = (if who = 0 then score1 else score0)"
    and "take_turn ((if who = 0 then strategy0 else strategy1) current opponent) opponent
     (select_dice four_sided six_sided current opponent) w = None"
  shows "spec_play_loop strategy0 strategy1 goal four_sided six_sided who score0 score1 w
     = None"
proof (cases "who = 0")
  case True
  with assms have t: "take_turn (strategy0 score0 score1) score1
     (select_dice four_sided six_sided score0 score1) w = None"
    by simp
  have "spec_play_loop strategy0 strategy1 goal four_sided six_sided 0 score0 score1 w = None"
    apply (subst spec_play_loop.simps)
    apply (simp only: assms(1) if_True simp_thms Let_def t option.case)
    done
  with True show ?thesis by simp
next
  case False
  with assms have t: "take_turn (strategy1 score1 score0) score0
     (select_dice four_sided six_sided score1 score0) w = None"
    by simp
  show ?thesis
    apply (subst spec_play_loop.simps)
    apply (simp only: assms(1) if_True False if_False simp_thms Let_def t option.case)
    done
qed

lemma max_in_player_order:
  "max (if who = (0::int) then score else opponent_score)
       (if who = 0 then opponent_score else score) = max score (opponent_score::int)"
  by (simp add: max.commute)

lemma play_loop_refines:
  assumes run: "play_loop strategy0 strategy1 goal four_sided six_sided who score opponent_score w = Some r"
    and who: "who = 0 \<or> who = 1"
  shows "spec_play_loop strategy0 strategy1 goal four_sided six_sided who
     (if who = 0 then score else opponent_score) (if who = 0 then opponent_score else score) w
     = Some (in_player_order r)"
  using who
proof (induction rule: play_loop.raw_induct [OF _ run, case_names turn])
  case (turn play_loop' strategy0 strategy1 goal four_sided six_sided who score opponent_score w r)
  let ?score0 = "if who = 0 then score else opponent_score"
  let ?score1 = "if who = 0 then opponent_score else score"
  let ?t = "take_turn ((if who = 0 then strategy0 else strategy1) score opponent_score)
              opponent_score (select_dice four_sided six_sided score opponent_score) w"
  have cur: "score = (if who = 0 then ?score0 else ?score1)" by simp
  have opp: "opponent_score = (if who = 0 then ?score1 else ?score0)" by simp
  show ?case
  proof (cases "max score opponent_score < goal")
    case False
    with turn.hyps have "r = Inr ((who, score, opponent_score), w)"
      by (simp only: if_False option.inject)
    moreover from False have "\<not> max ?score0 ?score1 < goal"
      by (simp only: max_in_player_order simp_thms)
    then have "spec_play_loop strategy0 strategy1 goal four_sided six_sided who
        ?score0 ?score1 w = Some (Inr ((?score0, ?score1), w))"
      by (rule spec_play_loop_stop)
    ultimately show ?thesis
      by (simp add: in_player_order_def)
  next
    case True
    then have spec: "max ?score0 ?score1 < goal"
      by (simp only: max_in_player_order simp_thms)
    show ?thesis
    proof (cases ?t)
      case None
      with True turn.hyps show ?thesis
        by (simp only: if_True Let_def option.case option.distinct)
    next
      case (Some s)
      show ?thesis
      proof (cases s)
        case (Inl e)
        with Some have t: "?t = Some (Inl e)" by simp
        with True turn.hyps have "Some (Inl e) = Some r"
          by (simp only: if_True Let_def option.case sum.case)
        then have "r = Inl e" by simp
        moreover have "spec_play_loop strategy0 strategy1 goal four_sided six_sided who
            ?score0 ?score1 w = Some (Inl e)"
          using spec cur opp t by (rule spec_play_loop_raise)
        ultimately show ?thesis by (simp add: in_player_order_def)
      next
        case (Inr p)
        obtain delta w' where p: "p = (delta, w')" by (cases p)
        with Some Inr have t: "?t = Some (Inr (delta, w'))" by simp
        let ?pair = "swine_swap (score + delta) opponent_score"
        from True turn.hyps
        have rec: "play_loop' strategy0 strategy1 goal four_sided six_sided (other who)
                     (snd ?pair) (fst ?pair) w' = Some r"
          by (simp only: if_True Let_def t option.case sum.case prod.case rotate_pair_def
              split_beta fst_conv snd_conv)
        from turn.prems have o: "other who = 0 \<or> other who = 1"
          by (auto simp: other_def)
        have "spec_play_loop strategy0 strategy1 goal four_sided six_sided (other who)
                (if other who = 0 then snd ?pair else fst ?pair)
                (if other who = 0 then fst ?pair else snd ?pair) w' = Some (in_player_order r)"
          using rec o by (rule turn.IH)
        moreover have "spec_play_loop strategy0 strategy1 goal four_sided six_sided who
                ?score0 ?score1 w
              = (if who = 0
                 then spec_play_loop strategy0 strategy1 goal four_sided six_sided 1
                   (fst ?pair) (snd ?pair) w'
                 else spec_play_loop strategy0 strategy1 goal four_sided six_sided 0
                   (snd ?pair) (fst ?pair) w')"
          using spec cur opp t by (rule spec_play_loop_turn)
        ultimately show ?thesis
          using turn.prems by (auto simp: other_def)
      qed
    qed
  qed
qed

lemma spec_play_loop_refined:
  assumes run: "spec_play_loop strategy0 strategy1 goal four_sided six_sided who score0 score1 w = Some r'"
    and who: "who = 0 \<or> who = 1"
  shows "\<exists>r. play_loop strategy0 strategy1 goal four_sided six_sided who
     (if who = 0 then score0 else score1) (if who = 0 then score1 else score0) w = Some r
     \<and> in_player_order r = r'"
  using who
proof (induction rule: spec_play_loop.raw_induct [OF _ run, case_names turn])
  case (turn spec_play_loop' strategy0 strategy1 goal four_sided six_sided who score0 score1 w r')
  let ?score = "if who = 0 then score0 else score1"
  let ?opponent_score = "if who = 0 then score1 else score0"
  let ?t = "take_turn ((if who = 0 then strategy0 else strategy1) ?score ?opponent_score)
              ?opponent_score (select_dice four_sided six_sided ?score ?opponent_score) w"
  have t_eq: "take_turn (if who = 0 then strategy0 ?score ?opponent_score
                          else strategy1 ?score ?opponent_score)
              ?opponent_score (select_dice four_sided six_sided ?score ?opponent_score) w = ?t"
    by simp
  have mx: "max ?score ?opponent_score = max score0 score1"
    by (simp add: max.commute)
  show ?case
  proof (cases "max score0 score1 < goal")
    case False
    with turn.hyps have r': "r' = Inr ((score0, score1), w)"
      by (simp only: if_False option.inject)
    from False have "\<not> max ?score ?opponent_score < goal"
      by (simp only: mx simp_thms)
    then have "play_loop strategy0 strategy1 goal four_sided six_sided who
        ?score ?opponent_score w = Some (Inr ((who, ?score, ?opponent_score), w))"
      by (rule play_loop_stop)
    moreover have "in_player_order (Inr ((who, ?score, ?opponent_score), w)) = r'"
      by (simp add: in_player_order_def r')
    ultimately show ?thesis by blast
  next
    case True
    then have loop: "max ?score ?opponent_score < goal"
      by (simp only: mx simp_thms)
    show ?thesis
    proof (cases ?t)
      case None
      with True turn.hyps show ?thesis
        by (simp only: if_True Let_def t_eq option.case option.distinct)
    next
      case (Some s)
      show ?thesis
      proof (cases s)
        case (Inl e)
        with Some have t: "?t = Some (Inl e)" by simp
        with True turn.hyps have "Some (Inl e) = Some r'"
          by (simp only: if_True Let_def t_eq option.case sum.case)
        then have "r' = Inl e" by simp
        moreover have "play_loop strategy0 strategy1 goal four_sided six_sided who
            ?score ?opponent_score w = Some (Inl e)"
          using loop t by (rule play_loop_raise)
        ultimately show ?thesis by (simp add: in_player_order_def)
      next
        case (Inr p)
        obtain delta w' where p: "p = (delta, w')" by (cases p)
        with Some Inr have t: "?t = Some (Inr (delta, w'))" by simp
        let ?pair = "swine_swap (?score + delta) ?opponent_score"
        from True turn.hyps
        have "(if who = 0
               then spec_play_loop' strategy0 strategy1 goal four_sided six_sided 1
                      (fst ?pair) (snd ?pair) w'
               else spec_play_loop' strategy0 strategy1 goal four_sided six_sided 0
                      (snd ?pair) (fst ?pair) w') = Some r'"
          by (simp only: if_True Let_def t_eq t option.case sum.case prod.case)
            (cases "who = 0"; auto simp: swine_swap_def)
        with turn.prems
        have rec: "spec_play_loop' strategy0 strategy1 goal four_sided six_sided (other who)
                     (if other who = 0 then snd ?pair else fst ?pair)
                     (if other who = 0 then fst ?pair else snd ?pair) w' = Some r'"
          by (auto simp: other_def)
        from turn.prems have o: "other who = 0 \<or> other who = 1"
          by (auto simp: other_def)
        have "\<exists>r. play_loop strategy0 strategy1 goal four_sided six_sided (other who)
                 (if other who = 0 then (if other who = 0 then snd ?pair else fst ?pair)
                  else (if other who = 0 then fst ?pair else snd ?pair))
                 (if other who = 0 then (if other who = 0 then fst ?pair else snd ?pair)
                  else (if other who = 0 then snd ?pair else fst ?pair)) w' = Some r
               \<and> in_player_order r = r'"
          using rec o by (rule turn.IH)
        then have "\<exists>r. play_loop strategy0 strategy1 goal four_sided six_sided (other who)
                 (snd ?pair) (fst ?pair) w' = Some r \<and> in_player_order r = r'"
          by (simp split: if_splits)
        moreover have "play_loop strategy0 strategy1 goal four_sided six_sided who
                ?score ?opponent_score w
              = play_loop strategy0 strategy1 goal four_sided six_sided (other who)
                 (snd ?pair) (fst ?pair) w'"
          using loop t by (rule play_loop_turn)
        ultimately show ?thesis by simp
      qed
    qed
  qed
qed

lemma play_in_player_order:
  "play strategy0 strategy1 goal four_sided six_sided w
     = map_option in_player_order
         (play_loop strategy0 strategy1 goal four_sided six_sided 0 0 0 w)"
  by (simp add: play_def in_player_order_def split: option.splits sum.splits prod.splits)

lemma play_spec_play_loop:
  "play strategy0 strategy1 goal four_sided six_sided w
     = spec_play_loop strategy0 strategy1 goal four_sided six_sided 0 0 0 w"
proof (cases "play_loop strategy0 strategy1 goal four_sided six_sided 0 0 0 w")
  case None
  have "spec_play_loop strategy0 strategy1 goal four_sided six_sided 0 0 0 w = None"
  proof (rule ccontr)
    assume "spec_play_loop strategy0 strategy1 goal four_sided six_sided 0 0 0 w \<noteq> None"
    then obtain r' where
      "spec_play_loop strategy0 strategy1 goal four_sided six_sided 0 0 0 w = Some r'"
      by blast
    from spec_play_loop_refined [OF this] None show False by simp
  qed
  with None show ?thesis by (simp add: play_in_player_order)
next
  case (Some r)
  from play_loop_refines [OF Some] Some show ?thesis
    by (simp add: play_in_player_order)
qed

lemma swine_swap_sum:
  "fst (swine_swap score opponent_score) + snd (swine_swap score opponent_score)
     = score + opponent_score"
  by (simp add: swine_swap_def)

lemma swine_swap_max:
  "max (snd (swine_swap score opponent_score)) (fst (swine_swap score opponent_score))
     = max score opponent_score"
  by (simp add: swine_swap_def max.commute)

lemma take_turn_positive:
  assumes "0 \<le> n" and "n \<le> 10" and "opponent_score < 100" and "positive_dice dice"
  shows "\<exists>delta w'. take_turn (PyInt n) opponent_score dice w = Some (Inr (delta, w'))
           \<and> 1 \<le> delta"
proof (cases "n = 0")
  case True
  with assms free_bacon_positive [of opponent_score] show ?thesis
    by (simp add: take_turn_def)
next
  case False
  with assms have n: "1 \<le> n" by simp
  let ?xs = "fst (draw (nat n) dice w)"
  have "?xs \<noteq> []" using length_draw [of "nat n" dice w] n by auto
  moreover have "\<forall>x \<in> set ?xs. 0 < x" using draw_positive [OF assms(4)] by blast
  ultimately have "1 \<le> sum_list ?xs" by (rule sum_list_positive)
  with assms n False roll_dice_draw [OF n, of dice w] show ?thesis
    by (simp add: take_turn_def)
qed

lemma play_loop_returns:
  assumes goal: "goal \<le> 100"
    and s0: "valid_strategy strategy0" and s1: "valid_strategy strategy1"
    and d4: "positive_dice four_sided" and d6: "positive_dice six_sided"
  shows "\<exists>who' score' opponent_score' w'.
           play_loop strategy0 strategy1 goal four_sided six_sided who score opponent_score w
             = Some (Inr ((who', score', opponent_score'), w'))
           \<and> goal \<le> max score' opponent_score'"
proof (induction "nat (2 * goal - (score + opponent_score))"
    arbitrary: who score opponent_score w rule: less_induct)
  case less
  show ?case
  proof (cases "max score opponent_score < goal")
    case False
    then have "play_loop strategy0 strategy1 goal four_sided six_sided who score opponent_score w
        = Some (Inr ((who, score, opponent_score), w))"
      by (rule play_loop_stop)
    with False show ?thesis by (simp del: max_less_iff_conj)
  next
    case True
    let ?strategy = "if who = 0 then strategy0 else strategy1"
    let ?dice = "select_dice four_sided six_sided score opponent_score"
    from s0 s1 have "valid_strategy ?strategy" by simp
    then obtain n where n: "?strategy score opponent_score = PyInt n" "0 \<le> n" "n \<le> 10"
      unfolding valid_strategy_def by blast
    from d4 d6 have dice: "positive_dice ?dice" by (simp add: select_dice_def)
    from True goal have opp: "opponent_score < 100" by simp
    from take_turn_positive [OF n(2,3) opp dice, of w]
    obtain delta w' where
      t: "take_turn (PyInt n) opponent_score ?dice w = Some (Inr (delta, w'))"
      and delta: "1 \<le> delta"
      by blast
    from t n(1) have t': "take_turn (?strategy score opponent_score) opponent_score ?dice w
        = Some (Inr (delta, w'))"
      by simp
    let ?pair = "swine_swap (score + delta) opponent_score"
    have step: "play_loop strategy0 strategy1 goal four_sided six_sided who score opponent_score w
        = play_loop strategy0 strategy1 goal four_sided six_sided (other who)
            (snd ?pair) (fst ?pair) w'"
      using True t' by (rule play_loop_turn)
    have "snd ?pair + fst ?pair = score + delta + opponent_score"
      using swine_swap_sum [of "score + delta" opponent_score] by simp
    with True delta
    have "nat (2 * goal - (snd ?pair + fst ?pair)) < nat (2 * goal - (score + opponent_score))"
      by simp
    from less [OF this] step show ?thesis by simp
  qed
qed

text \<open>
  C1. \<open>play\<close> is the game of the specification on the scores of player 0 and player 1:
  the strategy of the player \<open>who\<close> and \<open>select_dice\<close> see the scores before the turn,
  the points of \<open>take_turn\<close> are added to the current score, the two scores are exchanged
  if one is exactly twice the other, then the pair is rotated and \<open>who\<close> flipped. The pair
  returned is the rotating pair read through the final \<open>who\<close>, player 0 first. The third
  part is one iteration on the rotating pair, both swaps carried out.
\<close>

theorem play_turn_order:
  "play strategy0 strategy1 goal four_sided six_sided w
     = spec_play_loop strategy0 strategy1 goal four_sided six_sided 0 0 0 w
   \<and> play strategy0 strategy1 goal four_sided six_sided w
     = map_option in_player_order
         (play_loop strategy0 strategy1 goal four_sided six_sided 0 0 0 w)
   \<and> (max score opponent_score < goal
        \<and> take_turn ((if who = 0 then strategy0 else strategy1) score opponent_score)
              opponent_score (select_dice four_sided six_sided score opponent_score) v
            = Some (Inr (delta, v'))
      \<longrightarrow> play_loop strategy0 strategy1 goal four_sided six_sided who score opponent_score v
            = play_loop strategy0 strategy1 goal four_sided six_sided (1 - who)
                (if score + delta = 2 * opponent_score \<or> opponent_score = 2 * (score + delta)
                 then score + delta else opponent_score)
                (if score + delta = 2 * opponent_score \<or> opponent_score = 2 * (score + delta)
                 then opponent_score else score + delta) v')"
proof (intro conjI impI)
  show "play strategy0 strategy1 goal four_sided six_sided w
     = spec_play_loop strategy0 strategy1 goal four_sided six_sided 0 0 0 w"
    by (rule play_spec_play_loop)
  show "play strategy0 strategy1 goal four_sided six_sided w
     = map_option in_player_order
         (play_loop strategy0 strategy1 goal four_sided six_sided 0 0 0 w)"
    by (rule play_in_player_order)
next
  assume a: "max score opponent_score < goal
        \<and> take_turn ((if who = 0 then strategy0 else strategy1) score opponent_score)
              opponent_score (select_dice four_sided six_sided score opponent_score) v
            = Some (Inr (delta, v'))"
  let ?pair = "swine_swap (score + delta) opponent_score"
  have "play_loop strategy0 strategy1 goal four_sided six_sided who score opponent_score v
        = play_loop strategy0 strategy1 goal four_sided six_sided (other who)
            (snd ?pair) (fst ?pair) v'"
    using a by (intro play_loop_turn) simp_all
  also have "other who = 1 - who" by (simp add: other_def)
  also have "snd ?pair = (if score + delta = 2 * opponent_score
        \<or> opponent_score = 2 * (score + delta) then score + delta else opponent_score)"
    by (simp add: swine_swap_def)
  also have "fst ?pair = (if score + delta = 2 * opponent_score
        \<or> opponent_score = 2 * (score + delta) then opponent_score else score + delta)"
    by (simp add: swine_swap_def)
  finally show "play_loop strategy0 strategy1 goal four_sided six_sided who score opponent_score v
            = play_loop strategy0 strategy1 goal four_sided six_sided (1 - who)
                (if score + delta = 2 * opponent_score \<or> opponent_score = 2 * (score + delta)
                 then score + delta else opponent_score)
                (if score + delta = 2 * opponent_score \<or> opponent_score = 2 * (score + delta)
                 then opponent_score else score + delta) v'" .
qed

theorem play_turn_order_witness:
  "max (40::int) 40 < 100
   \<and> take_turn (always_roll (PyInt 10) 40 40) 40
        (select_dice (make_test_dice [4]) (make_test_dice [4]) 40 40) 20 = Some (Inr (40, 30))
   \<and> play_loop (always_roll (PyInt 10)) (always_roll (PyInt 10)) 100
        (make_test_dice [4]) (make_test_dice [4]) 0 40 40 20
      = play_loop (always_roll (PyInt 10)) (always_roll (PyInt 10)) 100
        (make_test_dice [4]) (make_test_dice [4]) 1 80 40 30
   \<and> play (always_roll (PyInt 10)) (always_roll (PyInt 10)) 100
        (make_test_dice [4]) (make_test_dice [4]) 0 = Some (Inr ((40, 120), 40))
   \<and> spec_play_loop (always_roll (PyInt 10)) (always_roll (PyInt 10)) 100
        (make_test_dice [4]) (make_test_dice [4]) 0 0 0 0 = Some (Inr ((40, 120), 40))"
proof -
  have t: "take_turn (always_roll (PyInt 10) 40 40) 40
        (select_dice (make_test_dice [4]) (make_test_dice [4]) 40 40) 20 = Some (Inr (40, 30))"
    by code_simp
  have p: "play (always_roll (PyInt 10)) (always_roll (PyInt 10)) 100
        (make_test_dice [4]) (make_test_dice [4]) 0 = Some (Inr ((40, 120), 40))"
    by code_simp
  from play_turn_order [of "always_roll (PyInt 10)" "always_roll (PyInt 10)" 100
      "make_test_dice [4]" "make_test_dice [4]" 0 40 40 0 20 40 30] t p
  show ?thesis by simp
qed

text \<open>
  C2, for a goal of at most 100. With strategies that return integers from 0 to 10 and dice
  that return positive outcomes, \<open>play\<close> returns a pair of scores, the larger of which is
  at least the goal; and the loop, entered with a score at or above the goal, returns at once,
  before any strategy or dice is called.
\<close>

theorem play_reaches_goal:
  assumes "goal \<le> 100"
    and "valid_strategy strategy0" and "valid_strategy strategy1"
    and "positive_dice four_sided" and "positive_dice six_sided"
  shows "(\<exists>score0 score1 w'.
            play strategy0 strategy1 goal four_sided six_sided w = Some (Inr ((score0, score1), w'))
            \<and> goal \<le> max score0 score1)
         \<and> (goal \<le> max score opponent_score \<longrightarrow>
              play_loop strategy0 strategy1 goal four_sided six_sided who score opponent_score v
                = Some (Inr ((who, score, opponent_score), v)))"
proof
  from play_loop_returns [OF assms, of 0 0 0 w]
  obtain who' score' opponent_score' w' where
    l: "play_loop strategy0 strategy1 goal four_sided six_sided 0 0 0 w
          = Some (Inr ((who', score', opponent_score'), w'))"
    and g: "goal \<le> max score' opponent_score'"
    by blast
  show "\<exists>score0 score1 w'.
            play strategy0 strategy1 goal four_sided six_sided w = Some (Inr ((score0, score1), w'))
            \<and> goal \<le> max score0 score1"
  proof (cases "who' = 0")
    case True
    with l g show ?thesis by (simp add: play_def)
  next
    case False
    with l g show ?thesis by (simp add: play_def max.commute)
  qed
  show "goal \<le> max score opponent_score \<longrightarrow>
              play_loop strategy0 strategy1 goal four_sided six_sided who score opponent_score v
                = Some (Inr ((who, score, opponent_score), v))"
  proof
    assume "goal \<le> max score opponent_score"
    then have "\<not> max score opponent_score < goal" by (simp only: not_less)
    then show "play_loop strategy0 strategy1 goal four_sided six_sided who score opponent_score v
                = Some (Inr ((who, score, opponent_score), v))"
      by (rule play_loop_stop)
  qed
qed

lemma valid_always_roll: "0 \<le> n \<Longrightarrow> n \<le> 10 \<Longrightarrow> valid_strategy (always_roll (PyInt n))"
  by (simp add: valid_strategy_def always_roll_def)

theorem play_reaches_goal_witness:
  "(100::int) \<le> 100
   \<and> valid_strategy (always_roll (PyInt 5)) \<and> valid_strategy (always_roll (PyInt 0))
   \<and> positive_dice (make_test_dice [1, 2, 3, 4]) \<and> positive_dice (make_test_dice [3, 1, 5, 6])
   \<and> (\<exists>score0 score1 w'.
         play (always_roll (PyInt 5)) (always_roll (PyInt 0)) 100
           (make_test_dice [1, 2, 3, 4]) (make_test_dice [3, 1, 5, 6]) 0
           = Some (Inr ((score0, score1), w'))
         \<and> 100 \<le> max score0 score1)
   \<and> play_loop (always_roll (PyInt 5)) (always_roll (PyInt 0)) 100
        (make_test_dice [1, 2, 3, 4]) (make_test_dice [3, 1, 5, 6]) 1 100 97 7
      = Some (Inr ((1, 100, 97), 7))"
proof -
  have s5: "valid_strategy (always_roll (PyInt 5))" by (rule valid_always_roll) simp_all
  have s0: "valid_strategy (always_roll (PyInt 0))" by (rule valid_always_roll) simp_all
  have d4: "positive_dice (make_test_dice [1, 2, 3, 4])"
    by (rule positive_make_test_dice) simp_all
  have d6: "positive_dice (make_test_dice [3, 1, 5, 6])"
    by (rule positive_make_test_dice) simp_all
  from play_reaches_goal [OF _ s5 s0 d4 d6, of 100 0 100 97 1 7] s5 s0 d4 d6
  show ?thesis by simp
qed

text \<open>
  C2 as stated, for every goal, fails: with a goal of 200, both players rolling ten dice that
  always show 4, the scores are 40 and 120 after four turns; the fifth turn calls
  \<open>take_turn\<close> with an opponent score of 120, and its assertion
  \<open>opponent_score < 100\<close> stops the game with an error.
\<close>

theorem play_goal_above_100_counterexample:
  "play (always_roll (PyInt 10)) (always_roll (PyInt 10)) 200
     (make_test_dice [4]) (make_test_dice [4]) 0
   = Some (Inl (AssertionError ''The game should be over.''))"
  by code_simp

text \<open>
  C7. When \<open>play\<close> returns the scores of player 0 and player 1, \<open>winner\<close> returns 0 if
  the first is strictly greater and 1 otherwise; it returns 0 only then, and two equal scores
  give 1.
\<close>

theorem winner_strictly_greater:
  assumes "play strategy0 strategy1 GOAL_SCORE four_sided six_sided w
             = Some (Inr ((score0, score1), w'))"
  shows "winner strategy0 strategy1 four_sided six_sided w
             = Some (Inr (if score0 > score1 then 0 else 1, w'))
         \<and> (winner strategy0 strategy1 four_sided six_sided w = Some (Inr (0, w'))
              \<longleftrightarrow> score1 < score0)
         \<and> (score0 = score1
              \<longrightarrow> winner strategy0 strategy1 four_sided six_sided w = Some (Inr (1, w')))"
  using assms by (simp add: winner_def)

theorem winner_strictly_greater_witness:
  "play (always_roll (PyInt 10)) (always_roll (PyInt 10)) GOAL_SCORE
       (make_test_dice [4]) (make_test_dice [4]) 0 = Some (Inr ((40, 120), 40))
   \<and> winner (always_roll (PyInt 10)) (always_roll (PyInt 10))
       (make_test_dice [4]) (make_test_dice [4]) 0 = Some (Inr (1, 40))
   \<and> play (always_roll (PyInt 10)) (always_roll (PyInt 0)) GOAL_SCORE
       (make_test_dice [4]) (make_test_dice [4]) 0 = Some (Inr ((120, 14), 30))
   \<and> winner (always_roll (PyInt 10)) (always_roll (PyInt 0))
       (make_test_dice [4]) (make_test_dice [4]) 0 = Some (Inr (0, 30))"
proof -
  have p: "play (always_roll (PyInt 10)) (always_roll (PyInt 10)) GOAL_SCORE
       (make_test_dice [4]) (make_test_dice [4]) 0 = Some (Inr ((40, 120), 40))"
    by code_simp
  have q: "play (always_roll (PyInt 10)) (always_roll (PyInt 0)) GOAL_SCORE
       (make_test_dice [4]) (make_test_dice [4]) 0 = Some (Inr ((120, 14), 30))"
    by code_simp
  from winner_strictly_greater [OF p] winner_strictly_greater [OF q] p q
  show ?thesis by simp
qed

text \<open>
  C10. The doubling swap and the rotation of the pair only exchange the two scores: the
  multiset of the pair is the same after each. So, in an iteration of the loop of \<open>play\<close>,
  the pair handed to the next iteration holds the same two values as the pair right after the
  turn's points were added, their maximum is the same, and a score at or above the goal is
  still in the pair.
\<close>

theorem swaps_preserve_scores:
  "{#fst (swine_swap score opponent_score), snd (swine_swap score opponent_score)#}
     = {#score, opponent_score#}
   \<and> {#fst (rotate_pair p), snd (rotate_pair p)#} = {#fst p, snd p#}
   \<and> max (fst (rotate_pair (swine_swap score opponent_score)))
         (snd (rotate_pair (swine_swap score opponent_score))) = max score opponent_score
   \<and> (max score opponent_score < goal
        \<and> take_turn ((if who = 0 then strategy0 else strategy1) score opponent_score)
              opponent_score (select_dice four_sided six_sided score opponent_score) w
            = Some (Inr (delta, w'))
      \<longrightarrow> (\<exists>score' opponent_score'.
            play_loop strategy0 strategy1 goal four_sided six_sided who score opponent_score w
              = play_loop strategy0 strategy1 goal four_sided six_sided (other who)
                  score' opponent_score' w'
            \<and> {#score', opponent_score'#} = {#score + delta, opponent_score#}
            \<and> max score' opponent_score' = max (score + delta) opponent_score
            \<and> (goal \<le> max (score + delta) opponent_score
                 \<longrightarrow> goal \<le> max score' opponent_score')))"
proof (intro conjI impI)
  show "{#fst (swine_swap score opponent_score), snd (swine_swap score opponent_score)#}
     = {#score, opponent_score#}"
    by (simp add: swine_swap_def add_mset_commute)
  show "{#fst (rotate_pair p), snd (rotate_pair p)#} = {#fst p, snd p#}"
    by (simp add: rotate_pair_def split_beta add_mset_commute)
  show "max (fst (rotate_pair (swine_swap score opponent_score)))
         (snd (rotate_pair (swine_swap score opponent_score))) = max score opponent_score"
    by (simp add: rotate_pair_def split_beta swine_swap_max)
next
  assume a: "max score opponent_score < goal
        \<and> take_turn ((if who = 0 then strategy0 else strategy1) score opponent_score)
              opponent_score (select_dice four_sided six_sided score opponent_score) w
            = Some (Inr (delta, w'))"
  let ?pair = "swine_swap (score + delta) opponent_score"
  have "play_loop strategy0 strategy1 goal four_sided six_sided who score opponent_score w
        = play_loop strategy0 strategy1 goal four_sided six_sided (other who)
            (snd ?pair) (fst ?pair) w'"
    using a by (intro play_loop_turn) simp_all
  moreover have "{#snd ?pair, fst ?pair#} = {#score + delta, opponent_score#}"
    by (simp add: swine_swap_def add_mset_commute)
  moreover have m: "max (snd ?pair) (fst ?pair) = max (score + delta) opponent_score"
    by (rule swine_swap_max)
  moreover have "goal \<le> max (score + delta) opponent_score
                 \<longrightarrow> goal \<le> max (snd ?pair) (fst ?pair)"
    by (simp only: m) simp
  ultimately show "\<exists>score' opponent_score'.
            play_loop strategy0 strategy1 goal four_sided six_sided who score opponent_score w
              = play_loop strategy0 strategy1 goal four_sided six_sided (other who)
                  score' opponent_score' w'
            \<and> {#score', opponent_score'#} = {#score + delta, opponent_score#}
            \<and> max score' opponent_score' = max (score + delta) opponent_score
            \<and> (goal \<le> max (score + delta) opponent_score
                 \<longrightarrow> goal \<le> max score' opponent_score')"
    by blast
qed

theorem swaps_preserve_scores_witness:
  "max (40::int) 40 < 200
   \<and> take_turn (always_roll (PyInt 10) 40 40) 40
        (select_dice (make_test_dice [4]) (make_test_dice [4]) 40 40) 20 = Some (Inr (40, 30))
   \<and> swine_swap 80 40 = (40, 80) \<and> rotate_pair (40, 80) = (80, 40)
   \<and> (\<exists>score' opponent_score'.
         play_loop (always_roll (PyInt 10)) (always_roll (PyInt 10)) 200
           (make_test_dice [4]) (make_test_dice [4]) 0 40 40 20
         = play_loop (always_roll (PyInt 10)) (always_roll (PyInt 10)) 200
           (make_test_dice [4]) (make_test_dice [4]) (other 0) score' opponent_score' 30
         \<and> {#score', opponent_score'#} = {#40 + 40, 40#}
         \<and> max score' opponent_score' = max (40 + 40) 40)"
proof -
  have t: "take_turn (always_roll (PyInt 10) 40 40) 40
        (select_dice (make_test_dice [4]) (make_test_dice [4]) 40 40) 20 = Some (Inr (40, 30))"
    by code_simp
  have s: "swine_swap 80 40 = (40, 80)" "rotate_pair (40, 80) = (80, 40)"
    by (simp_all add: swine_swap_def rotate_pair_def)
  from swaps_preserve_scores [of 40 40 "(40, 80)" 200 0 "always_roll (PyInt 10)"
      "always_roll (PyInt 10)" "make_test_dice [4]" "make_test_dice [4]" 20 40 30] t s
  show ?thesis by simp
qed

section \<open>The experiment harness\<close>

declare average_loop.simps [simp del]
declare max_scoring_loop.simps [simp del]

lemma average_loop_samples:
  "average_loop fn num_samples i tot w =
     (case samples (nat (num_samples - i)) fn w of
        None \<Rightarrow> None
      | Some (Inl e) \<Rightarrow> Some (Inl e)
      | Some (Inr (vs, w')) \<Rightarrow> Some (Inr (tot + sum_list vs, w')))"
proof (induction "nat (num_samples - i)" arbitrary: i tot w)
  case 0
  then have "\<not> i < num_samples" by simp
  then have "average_loop fn num_samples i tot w = Some (Inr (tot, w))"
    by (subst average_loop.simps) (simp only: if_False)
  with 0 [symmetric] show ?case by simp
next
  case (Suc k)
  then have less: "i < num_samples" and k: "k = nat (num_samples - (i + 1))"
    and n: "nat (num_samples - i) = Suc k" by simp_all
  show ?case
  proof (cases "fn w")
    case None
    with less have "average_loop fn num_samples i tot w = None"
      by (subst average_loop.simps) (simp only: if_True option.case)
    with None n show ?thesis by simp
  next
    case (Some s)
    show ?thesis
    proof (cases s)
      case (Inl e)
      with Some less have "average_loop fn num_samples i tot w = Some (Inl e)"
        by (subst average_loop.simps) (simp only: if_True option.case sum.case)
      with Some Inl n show ?thesis by simp
    next
      case (Inr p)
      obtain v w' where p: "p = (v, w')" by (cases p)
      from Some Inr p less
      have "average_loop fn num_samples i tot w
              = average_loop fn num_samples (i + 1) (tot + v) w'"
        by (subst average_loop.simps) (simp only: if_True option.case sum.case prod.case)
      also have "\<dots> = (case samples k fn w' of
            None \<Rightarrow> None
          | Some (Inl e) \<Rightarrow> Some (Inl e)
          | Some (Inr (vs, w'')) \<Rightarrow> Some (Inr (tot + v + sum_list vs, w'')))"
        using Suc.hyps(1) [OF k, of "tot + v" w'] by (simp only: k)
      finally show ?thesis
        using Some Inr p n
        by (simp split: option.splits sum.splits prod.splits)
    qed
  qed
qed

lemma make_averaged_samples:
  assumes "0 < num_samples"
  shows "make_averaged fl fn num_samples w =
     (case samples (nat num_samples) fn w of
        None \<Rightarrow> None
      | Some (Inl e) \<Rightarrow> Some (Inl e)
      | Some (Inr (vs, w')) \<Rightarrow>
          Some (Inr (fl (of_int (sum_list vs) / of_int num_samples), w')))"
  using assms
  by (simp add: make_averaged_def average_loop_samples
      split: option.splits sum.splits prod.splits)

lemma samples_returns:
  assumes "\<And>w. \<exists>v w'. fn w = Some (Inr (v, w')) \<and> P v"
  shows "\<exists>vs w'. samples k fn w = Some (Inr (vs, w')) \<and> length vs = k \<and> (\<forall>v \<in> set vs. P v)"
proof (induction k arbitrary: w)
  case 0
  show ?case by simp
next
  case (Suc k)
  from assms obtain v w' where f: "fn w = Some (Inr (v, w'))" and v: "P v" by blast
  from Suc [of w'] obtain vs w'' where
    s: "samples k fn w' = Some (Inr (vs, w''))" and l: "length vs = k"
    and a: "\<forall>v \<in> set vs. P v"
    by blast
  from f s have "samples (Suc k) fn w = Some (Inr (v # vs, w''))" by simp
  with v l a show ?case by simp
qed

lemma samples_values:
  assumes "\<And>w v w'. fn w = Some (Inr (v, w')) \<Longrightarrow> P v"
    and "samples k fn w = Some (Inr (vs, w'))"
  shows "length vs = k \<and> (\<forall>v \<in> set vs. P v)"
  using assms(2)
proof (induction k arbitrary: w vs)
  case 0
  then show ?case by simp
next
  case (Suc k)
  from Suc.prems obtain v w1 vs' where f: "fn w = Some (Inr (v, w1))"
    and s: "samples k fn w1 = Some (Inr (vs', w'))" and vs: "vs = v # vs'"
    by (auto split: option.splits sum.splits prod.splits)
  from assms(1) [OF f] Suc.IH [OF s] vs show ?case by simp
qed

lemma first_max_scan_cases:
  "(first_max_scan roll max_num_roll best_value avs = max_num_roll
      \<and> (\<forall>a \<in> set avs. a \<le> best_value))
   \<or> (\<exists>j < length avs.
         first_max_scan roll max_num_roll best_value avs = roll + int j
         \<and> best_value < avs ! j
         \<and> (\<forall>a \<in> set avs. a \<le> avs ! j)
         \<and> (\<forall>i < j. avs ! i < avs ! j))"
proof (induction avs arbitrary: roll max_num_roll best_value)
  case Nil
  show ?case by simp
next
  case (Cons a avs)
  show ?case
  proof (cases "a > best_value")
    case True
    from Cons [of "roll + 1" roll a]
    show ?thesis
    proof (elim disjE conjE exE)
      assume "first_max_scan (roll + 1) roll a avs = roll" and "\<forall>x \<in> set avs. x \<le> a"
      with True have "0 < length (a # avs)
          \<and> first_max_scan roll max_num_roll best_value (a # avs) = roll + int 0
          \<and> best_value < (a # avs) ! 0
          \<and> (\<forall>x \<in> set (a # avs). x \<le> (a # avs) ! 0)
          \<and> (\<forall>i < 0. (a # avs) ! i < (a # avs) ! 0)"
        by simp
      then show ?thesis by blast
    next
      fix j
      assume j: "j < length avs"
        and r: "first_max_scan (roll + 1) roll a avs = roll + 1 + int j"
        and b: "a < avs ! j"
        and m: "\<forall>x \<in> set avs. x \<le> avs ! j"
        and f: "\<forall>i < j. avs ! i < avs ! j"
      have "\<forall>i < Suc j. (a # avs) ! i < (a # avs) ! Suc j"
      proof (intro allI impI)
        fix i assume "i < Suc j"
        with b f show "(a # avs) ! i < (a # avs) ! Suc j"
          by (cases i) simp_all
      qed
      with True j r b m have "Suc j < length (a # avs)
          \<and> first_max_scan roll max_num_roll best_value (a # avs) = roll + int (Suc j)
          \<and> best_value < (a # avs) ! Suc j
          \<and> (\<forall>x \<in> set (a # avs). x \<le> (a # avs) ! Suc j)
          \<and> (\<forall>i < Suc j. (a # avs) ! i < (a # avs) ! Suc j)"
        by simp
      then show ?thesis by blast
    qed
  next
    case False
    from Cons [of "roll + 1" max_num_roll best_value]
    show ?thesis
    proof (elim disjE conjE exE)
      assume "first_max_scan (roll + 1) max_num_roll best_value avs = max_num_roll"
        and "\<forall>x \<in> set avs. x \<le> best_value"
      with False show ?thesis by simp
    next
      fix j
      assume j: "j < length avs"
        and r: "first_max_scan (roll + 1) max_num_roll best_value avs = roll + 1 + int j"
        and b: "best_value < avs ! j"
        and m: "\<forall>x \<in> set avs. x \<le> avs ! j"
        and f: "\<forall>i < j. avs ! i < avs ! j"
      from False b have a: "a < avs ! j" by simp
      have "\<forall>i < Suc j. (a # avs) ! i < (a # avs) ! Suc j"
      proof (intro allI impI)
        fix i assume "i < Suc j"
        with a f show "(a # avs) ! i < (a # avs) ! Suc j"
          by (cases i) simp_all
      qed
      with False j r b m a have "Suc j < length (a # avs)
          \<and> first_max_scan roll max_num_roll best_value (a # avs) = roll + int (Suc j)
          \<and> best_value < (a # avs) ! Suc j
          \<and> (\<forall>x \<in> set (a # avs). x \<le> (a # avs) ! Suc j)
          \<and> (\<forall>i < Suc j. (a # avs) ! i < (a # avs) ! Suc j)"
        by simp
      then show ?thesis by blast
    qed
  qed
qed

lemma max_scoring_loop_scan:
  "roll_averages fl dice [roll..10] w = Some (Inr (avs, w')) \<Longrightarrow>
   max_scoring_loop fl dice roll max_num_roll best_value w
     = Some (Inr (first_max_scan roll max_num_roll best_value avs, w'))"
proof (induction "nat (11 - roll)" arbitrary: roll max_num_roll best_value w avs)
  case 0
  then have stop: "\<not> roll \<le> 10" by simp
  then have "[roll..10] = []" by simp
  with "0.prems" have "avs = []" and "w' = w" by simp_all
  moreover from stop
  have "max_scoring_loop fl dice roll max_num_roll best_value w = Some (Inr (max_num_roll, w))"
    by (subst max_scoring_loop.simps) (simp only: if_False)
  ultimately show ?case by simp
next
  case (Suc k)
  then have go: "roll \<le> 10" and k: "k = nat (11 - (roll + 1))" by simp_all
  from go have up: "[roll..10] = roll # [roll + 1..10]" by (simp add: upto_rec1)
  from Suc.prems obtain vs w1 avs' where
    s: "samples 1000 (roll_dice (PyInt roll) dice) w = Some (Inr (vs, w1))"
    and r: "roll_averages fl dice [roll + 1..10] w1 = Some (Inr (avs', w'))"
    and avs: "avs = fl (of_int (sum_list vs) / 1000) # avs'"
    unfolding up by (auto split: option.splits sum.splits prod.splits)
  let ?ave = "fl (of_int (sum_list vs) / 1000)"
  from s have m: "make_averaged fl (roll_dice (PyInt roll) dice) 1000 w = Some (Inr (?ave, w1))"
    by (simp add: make_averaged_samples)
  have "max_scoring_loop fl dice roll max_num_roll best_value w
     = (if ?ave > best_value then max_scoring_loop fl dice (roll + 1) roll ?ave w1
        else max_scoring_loop fl dice (roll + 1) max_num_roll best_value w1)"
    by (subst max_scoring_loop.simps) (simp only: go if_True m option.case sum.case prod.case)
  also have "\<dots> = (if ?ave > best_value
        then Some (Inr (first_max_scan (roll + 1) roll ?ave avs', w'))
        else Some (Inr (first_max_scan (roll + 1) max_num_roll best_value avs', w')))"
    using Suc.hyps(1) [OF k r] by simp
  finally show ?case by (simp add: avs)
qed

lemma roll_dice_positive:
  assumes "1 \<le> n" and "positive_dice dice"
  shows "\<exists>v w'. roll_dice (PyInt n) dice w = Some (Inr (v, w')) \<and> 1 \<le> v"
proof -
  let ?xs = "fst (draw (nat n) dice w)"
  have "?xs \<noteq> []" using length_draw [of "nat n" dice w] assms(1) by auto
  moreover have "\<forall>x \<in> set ?xs. 0 < x" using draw_positive [OF assms(2)] by blast
  ultimately have "1 \<le> sum_list ?xs" by (rule sum_list_positive)
  with roll_dice_draw [OF assms(1), of dice w] show ?thesis by simp
qed

lemma sum_list_at_least_length:
  "\<forall>v \<in> set vs. (1::int) \<le> v \<Longrightarrow> int (length vs) \<le> sum_list vs"
  by (induction vs) auto

lemma roll_averages_returns:
  assumes "mono fl" and "fl 1 = 1" and "positive_dice dice"
    and "\<forall>roll \<in> set rolls. 1 \<le> roll"
  shows "\<exists>avs w'. roll_averages fl dice rolls w = Some (Inr (avs, w'))
           \<and> length avs = length rolls \<and> (\<forall>a \<in> set avs. 1 \<le> a)"
  using assms(4)
proof (induction rolls arbitrary: w)
  case Nil
  show ?case by simp
next
  case (Cons roll rolls)
  then have roll: "1 \<le> roll" by simp
  have "\<exists>vs w'. samples 1000 (roll_dice (PyInt roll) dice) w = Some (Inr (vs, w'))
          \<and> length vs = 1000 \<and> (\<forall>v \<in> set vs. 1 \<le> v)"
    by (rule samples_returns) (rule roll_dice_positive [OF roll assms(3)])
  then obtain vs w1 where
    s: "samples 1000 (roll_dice (PyInt roll) dice) w = Some (Inr (vs, w1))"
    and l: "length vs = 1000" and v: "\<forall>v \<in> set vs. 1 \<le> v"
    by blast
  from sum_list_at_least_length [OF v] l have "1000 \<le> sum_list vs" by simp
  then have "(1::rat) \<le> of_int (sum_list vs) / 1000" by simp
  with assms(1) have "fl 1 \<le> fl (of_int (sum_list vs) / 1000)" by (rule monoD)
  with assms(2) have a: "1 \<le> fl (of_int (sum_list vs) / 1000)" by simp
  from Cons.prems have "\<forall>roll \<in> set rolls. 1 \<le> roll" by simp
  from Cons.IH [OF this, of w1] obtain avs w' where
    r: "roll_averages fl dice rolls w1 = Some (Inr (avs, w'))"
    and la: "length avs = length rolls" and pa: "\<forall>a \<in> set avs. 1 \<le> a"
    by blast
  from s r have "roll_averages fl dice (roll # rolls) w
      = Some (Inr (fl (of_int (sum_list vs) / 1000) # avs, w'))"
    by simp
  with a la pa show ?case by simp
qed

text \<open>
  C6. For a dice with positive outcomes, \<open>max_scoring_num_rolls\<close> computes the ten
  averages of \<open>roll_dice\<close> for the roll counts 1 to 10, one after the other over 1000
  samples each, and returns a roll count from 1 to 10 whose average is the highest and strictly
  above the average of every lower roll count: of several roll counts with the highest average
  it returns the first.
\<close>

theorem max_scoring_num_rolls_first_highest:
  assumes "mono fl" and "fl 1 = 1" and "positive_dice dice"
  shows "\<exists>avs w' r.
           roll_averages fl dice [1..10] w = Some (Inr (avs, w'))
           \<and> length avs = 10
           \<and> max_scoring_num_rolls fl dice w = Some (Inr (r, w'))
           \<and> 1 \<le> r \<and> r \<le> 10
           \<and> (\<forall>a \<in> set avs. a \<le> avs ! nat (r - 1))
           \<and> (\<forall>i < nat (r - 1). avs ! i < avs ! nat (r - 1))"
proof -
  have "\<forall>roll \<in> set [1..10::int]. 1 \<le> roll" by simp
  from roll_averages_returns [OF assms this, of w] obtain avs w' where
    r: "roll_averages fl dice [1..10] w = Some (Inr (avs, w'))"
    and l: "length avs = 10" and p: "\<forall>a \<in> set avs. 1 \<le> a"
    by auto
  let ?r = "first_max_scan 1 0 0 avs"
  from r have m: "max_scoring_num_rolls fl dice w = Some (Inr (?r, w'))"
    by (simp add: max_scoring_num_rolls_def max_scoring_loop_scan)
  from l have "avs \<noteq> []" by auto
  then obtain a where "a \<in> set avs" by (cases avs) auto
  with p have "\<not> (\<forall>a \<in> set avs. a \<le> 0)" by force
  with first_max_scan_cases [of 1 0 0 avs] obtain j where
    j: "j < length avs" and rj: "?r = 1 + int j"
    and mx: "\<forall>a \<in> set avs. a \<le> avs ! j" and f: "\<forall>i < j. avs ! i < avs ! j"
    by blast
  from rj have "nat (?r - 1) = j" by simp
  with j l rj mx f have "1 \<le> ?r \<and> ?r \<le> 10
           \<and> (\<forall>a \<in> set avs. a \<le> avs ! nat (?r - 1))
           \<and> (\<forall>i < nat (?r - 1). avs ! i < avs ! nat (?r - 1))"
    by simp
  with r l m show ?thesis by blast
qed

theorem max_scoring_num_rolls_first_highest_witness:
  "mono (\<lambda>x::rat. x) \<and> (\<lambda>x::rat. x) 1 = 1 \<and> positive_dice (make_test_dice [3, 1, 5, 6])
   \<and> (\<exists>avs w' r.
           roll_averages (\<lambda>x. x) (make_test_dice [3, 1, 5, 6]) [1..10] 0 = Some (Inr (avs, w'))
           \<and> length avs = 10
           \<and> max_scoring_num_rolls (\<lambda>x. x) (make_test_dice [3, 1, 5, 6]) 0 = Some (Inr (r, w'))
           \<and> 1 \<le> r \<and> r \<le> 10
           \<and> (\<forall>a \<in> set avs. a \<le> avs ! nat (r - 1))
           \<and> (\<forall>i < nat (r - 1). avs ! i < avs ! nat (r - 1)))"
proof -
  have m: "mono (\<lambda>x::rat. x)" by (simp add: mono_def)
  have d: "positive_dice (make_test_dice [3, 1, 5, 6])"
    by (rule positive_make_test_dice) simp_all
  from max_scoring_num_rolls_first_highest [OF m _ d, of 0] m d
  show ?thesis by simp
qed

lemma winner_zero_one:
  "winner strategy0 strategy1 four_sided six_sided w = Some (Inr (v, w')) \<Longrightarrow> v = 0 \<or> v = 1"
  by (auto simp: winner_def split: option.splits sum.splits prod.splits if_splits)

lemma winner_returns:
  assumes "valid_strategy strategy0" and "valid_strategy strategy1"
    and "positive_dice four_sided" and "positive_dice six_sided"
  shows "\<exists>v w'. winner strategy0 strategy1 four_sided six_sided w = Some (Inr (v, w'))
           \<and> (v = 0 \<or> v = 1)"
proof -
  have "GOAL_SCORE \<le> 100" by (simp add: GOAL_SCORE_def)
  from play_loop_returns [OF this assms, of 0 0 0 w]
  obtain who' score' opponent_score' w' where
    "play_loop strategy0 strategy1 GOAL_SCORE four_sided six_sided 0 0 0 w
          = Some (Inr ((who', score', opponent_score'), w'))"
    by blast
  then show ?thesis by (simp add: winner_def play_def)
qed

lemma sum_list_zero_one:
  "\<forall>v \<in> set vs. v = (0::int) \<or> v = 1 \<Longrightarrow> 0 \<le> sum_list vs \<and> sum_list vs \<le> int (length vs)"
  by (induction vs) auto

lemma fl_between:
  assumes "mono (fl::rat \<Rightarrow> rat)" and "fl lo = lo" and "fl hi = hi"
    and "lo \<le> x" and "x \<le> hi"
  shows "lo \<le> fl x \<and> fl x \<le> hi"
proof -
  from assms(1,4) have "fl lo \<le> fl x" by (rule monoD)
  moreover from assms(1,5) have "fl x \<le> fl hi" by (rule monoD)
  ultimately show ?thesis using assms(2,3) by simp
qed

lemma rate_bounds:
  assumes fl: "mono (fl::rat \<Rightarrow> rat)" "fl 0 = 0" "fl 1 = 1"
    and vs: "\<forall>v \<in> set vs. v = (0::int) \<or> v = 1" and l: "length vs = 1000"
  shows "0 \<le> fl (of_int (sum_list vs) / 1000) \<and> fl (of_int (sum_list vs) / 1000) \<le> 1"
proof -
  from sum_list_zero_one [OF vs] l have "0 \<le> sum_list vs" and "sum_list vs \<le> 1000"
    by simp_all
  then have "(0::rat) \<le> of_int (sum_list vs) / 1000" and "of_int (sum_list vs) / 1000 \<le> (1::rat)"
    by simp_all
  with fl show ?thesis by (rule fl_between)
qed

lemma mean_bounds:
  assumes fl: "mono (fl::rat \<Rightarrow> rat)" "fl 0 = 0" "fl 1 = 1" "fl 2 = 2"
    and a: "0 \<le> a" "a \<le> 1" and b: "0 \<le> b" "b \<le> (1::rat)"
  shows "0 \<le> fl (fl (fl (1 - a) + b) / 2) \<and> fl (fl (fl (1 - a) + b) / 2) \<le> 1"
proof -
  from a have "0 \<le> 1 - a" and "1 - a \<le> 1" by simp_all
  with fl(1,2,3) have "0 \<le> fl (1 - a) \<and> fl (1 - a) \<le> 1" by (rule fl_between)
  with b have "0 \<le> fl (1 - a) + b" and "fl (1 - a) + b \<le> 2" by simp_all
  with fl(1,2,4) have "0 \<le> fl (fl (1 - a) + b) \<and> fl (fl (1 - a) + b) \<le> 2"
    by (rule fl_between)
  then have "0 \<le> fl (fl (1 - a) + b) / 2" and "fl (fl (1 - a) + b) / 2 \<le> 1"
    by simp_all
  with fl(1,2,3) show ?thesis by (rule fl_between)
qed

lemma make_averaged_1000:
  "make_averaged fl fn 1000 w = Some (Inr (a, w1))
     \<longleftrightarrow> (\<exists>vs. samples 1000 fn w = Some (Inr (vs, w1)) \<and> a = fl (of_int (sum_list vs) / 1000))"
proof -
  have m: "make_averaged fl fn 1000 w =
     (case samples (nat 1000) fn w of
        None \<Rightarrow> None
      | Some (Inl e) \<Rightarrow> Some (Inl e)
      | Some (Inr (vs, w')) \<Rightarrow>
          Some (Inr (fl (of_int (sum_list vs) / of_int 1000), w')))"
    by (rule make_averaged_samples) simp
  show ?thesis
  proof (cases "samples 1000 fn w")
    case None
    with m show ?thesis by simp
  next
    case (Some s)
    show ?thesis
    proof (cases s)
      case (Inl e)
      with Some m show ?thesis by simp
    next
      case (Inr p)
      obtain vs w' where "p = (vs, w')" by (cases p)
      with Some Inr m show ?thesis by auto
    qed
  qed
qed

text \<open>
  C5. With strategies that return integers from 0 to 10 and dice with positive outcomes,
  \<open>average_win_rate\<close> returns a value. Whenever it returns one, the value is the mean of
  two estimates: 1 minus the average of \<open>winner strategy baseline\<close> over 1000 games, and
  the average of \<open>winner baseline strategy\<close> over the next 1000 games, each operation
  rounded as Python rounds it; and the value lies between 0 and 1.
\<close>

theorem average_win_rate_mean:
  assumes "mono fl" and "fl 0 = 0" and "fl 1 = 1" and "fl 2 = 2"
  shows "(valid_strategy strategy \<and> valid_strategy baseline
            \<and> positive_dice four_sided \<and> positive_dice six_sided
          \<longrightarrow> (\<exists>rate w''. average_win_rate fl strategy baseline four_sided six_sided w
                               = Some (Inr (rate, w''))))
         \<and> (average_win_rate fl strategy baseline four_sided six_sided w = Some (Inr (v, w'))
          \<longrightarrow> (\<exists>wins0 w1 wins1.
                samples 1000 (winner strategy baseline four_sided six_sided) w
                  = Some (Inr (wins0, w1))
                \<and> samples 1000 (winner baseline strategy four_sided six_sided) w1
                  = Some (Inr (wins1, w'))
                \<and> v = fl (fl (fl (1 - fl (of_int (sum_list wins0) / 1000))
                               + fl (of_int (sum_list wins1) / 1000)) / 2)
                \<and> 0 \<le> v \<and> v \<le> 1))"
proof (intro conjI impI)
  assume h: "valid_strategy strategy \<and> valid_strategy baseline
            \<and> positive_dice four_sided \<and> positive_dice six_sided"
  have "\<exists>vs w1. samples 1000 (winner strategy baseline four_sided six_sided) w
          = Some (Inr (vs, w1)) \<and> length vs = 1000 \<and> (\<forall>v \<in> set vs. v = 0 \<or> v = 1)"
    by (rule samples_returns) (rule winner_returns, simp_all add: h)
  then obtain wins0 w1 where
    s0: "samples 1000 (winner strategy baseline four_sided six_sided) w = Some (Inr (wins0, w1))"
    by blast
  have "\<exists>vs w2. samples 1000 (winner baseline strategy four_sided six_sided) w1
          = Some (Inr (vs, w2)) \<and> length vs = 1000 \<and> (\<forall>v \<in> set vs. v = 0 \<or> v = 1)"
    by (rule samples_returns) (rule winner_returns, simp_all add: h)
  then obtain wins1 w2 where
    s1: "samples 1000 (winner baseline strategy four_sided six_sided) w1 = Some (Inr (wins1, w2))"
    by blast
  from s0 have m0: "make_averaged fl (winner strategy baseline four_sided six_sided) 1000 w
      = Some (Inr (fl (of_int (sum_list wins0) / 1000), w1))"
    by (simp add: make_averaged_1000)
  from s1 have m1: "make_averaged fl (winner baseline strategy four_sided six_sided) 1000 w1
      = Some (Inr (fl (of_int (sum_list wins1) / 1000), w2))"
    by (simp add: make_averaged_1000)
  show "\<exists>rate w''. average_win_rate fl strategy baseline four_sided six_sided w
                               = Some (Inr (rate, w''))"
    by (simp add: average_win_rate_def m0 m1)
next
  assume r: "average_win_rate fl strategy baseline four_sided six_sided w = Some (Inr (v, w'))"
  let ?m0 = "make_averaged fl (winner strategy baseline four_sided six_sided) 1000 w"
  obtain a w1 where m0: "?m0 = Some (Inr (a, w1))"
  proof (cases ?m0)
    case None
    with r show ?thesis by (simp add: average_win_rate_def)
  next
    case (Some s)
    show ?thesis
    proof (cases s)
      case (Inl e)
      with Some r show ?thesis by (simp add: average_win_rate_def)
    next
      case (Inr p)
      with Some that show ?thesis by (cases p) simp
    qed
  qed
  let ?m1 = "make_averaged fl (winner baseline strategy four_sided six_sided) 1000 w1"
  from r m0 have r1: "(case ?m1 of
        None \<Rightarrow> None
      | Some (Inl e) \<Rightarrow> Some (Inl e)
      | Some (Inr (b, w2)) \<Rightarrow> Some (Inr (fl (fl (fl (1 - a) + b) / 2), w2)))
      = Some (Inr (v, w'))"
    by (simp add: average_win_rate_def)
  obtain b where m1: "?m1 = Some (Inr (b, w'))" and v: "v = fl (fl (fl (1 - a) + b) / 2)"
  proof (cases ?m1)
    case None
    with r1 show ?thesis by simp
  next
    case (Some s)
    show ?thesis
    proof (cases s)
      case (Inl e)
      with Some r1 show ?thesis by simp
    next
      case (Inr p)
      with Some r1 that show ?thesis by (cases p) simp
    qed
  qed
  from m0 obtain wins0 where
    s0: "samples 1000 (winner strategy baseline four_sided six_sided) w = Some (Inr (wins0, w1))"
    and a: "a = fl (of_int (sum_list wins0) / 1000)"
    unfolding make_averaged_1000 by blast
  from m1 obtain wins1 where
    s1: "samples 1000 (winner baseline strategy four_sided six_sided) w1
               = Some (Inr (wins1, w'))"
    and b: "b = fl (of_int (sum_list wins1) / 1000)"
    unfolding make_averaged_1000 by blast
  have z0: "length wins0 = 1000 \<and> (\<forall>v \<in> set wins0. v = 0 \<or> v = 1)"
    using winner_zero_one s0 by (rule samples_values)
  have z1: "length wins1 = 1000 \<and> (\<forall>v \<in> set wins1. v = 0 \<or> v = 1)"
    using winner_zero_one s1 by (rule samples_values)
  from z0 have b0: "0 \<le> a \<and> a \<le> 1"
    unfolding a by (intro rate_bounds assms) simp_all
  from z1 have b1: "0 \<le> b \<and> b \<le> 1"
    unfolding b by (intro rate_bounds assms) simp_all
  from b0 b1 have "0 \<le> v \<and> v \<le> 1"
    unfolding v by (intro mean_bounds assms) simp_all
  with s0 s1 v a b show "\<exists>wins0 w1 wins1.
                samples 1000 (winner strategy baseline four_sided six_sided) w
                  = Some (Inr (wins0, w1))
                \<and> samples 1000 (winner baseline strategy four_sided six_sided) w1
                  = Some (Inr (wins1, w'))
                \<and> v = fl (fl (fl (1 - fl (of_int (sum_list wins0) / 1000))
                               + fl (of_int (sum_list wins1) / 1000)) / 2)
                \<and> 0 \<le> v \<and> v \<le> 1"
    by blast
qed

theorem average_win_rate_mean_witness:
  "mono (\<lambda>x::rat. x)
   \<and> valid_strategy (always_roll (PyInt 0)) \<and> valid_strategy (always_roll (PyInt 5))
   \<and> positive_dice (make_test_dice [1, 2, 3, 4]) \<and> positive_dice (make_test_dice [3, 1, 5, 6])
   \<and> (\<exists>rate w'. average_win_rate (\<lambda>x. x) (always_roll (PyInt 0)) (always_roll (PyInt 5))
            (make_test_dice [1, 2, 3, 4]) (make_test_dice [3, 1, 5, 6]) 0 = Some (Inr (rate, w'))
          \<and> 0 \<le> rate \<and> rate \<le> 1)"
proof -
  have m: "mono (\<lambda>x::rat. x)" by (simp add: mono_def)
  have s0: "valid_strategy (always_roll (PyInt 0))" by (rule valid_always_roll) simp_all
  have s5: "valid_strategy (always_roll (PyInt 5))" by (rule valid_always_roll) simp_all
  have d4: "positive_dice (make_test_dice [1, 2, 3, 4])"
    by (rule positive_make_test_dice) simp_all
  have d6: "positive_dice (make_test_dice [3, 1, 5, 6])"
    by (rule positive_make_test_dice) simp_all
  let ?run = "average_win_rate (\<lambda>x. x) (always_roll (PyInt 0)) (always_roll (PyInt 5))
            (make_test_dice [1, 2, 3, 4]) (make_test_dice [3, 1, 5, 6]) 0"
  note t = average_win_rate_mean [OF m, of "always_roll (PyInt 0)" "always_roll (PyInt 5)"
      "make_test_dice [1, 2, 3, 4]" "make_test_dice [3, 1, 5, 6]" 0]
  from t [of 0 0] s0 s5 d4 d6 obtain rate w' where r: "?run = Some (Inr (rate, w'))"
    by auto
  from t [of rate w'] r have "0 \<le> rate \<and> rate \<le> 1" by auto
  with m s0 s5 d4 d6 r show ?thesis by blast
qed

end
